theory Spec2Isabelle
  imports Main
begin

section \<open>Teclas: keystroke predicates, rules and the dispatcher (mod.ts)\<close>

subsection \<open>JavaScript completions\<close>

text \<open>
  A JavaScript call either returns a value or throws. \<open>TypeError\<close> is what the engine
  throws on a property read of \<open>undefined\<close>; \<open>Thrown\<close> is a value thrown by user code
  (a predicate or a callback supplied by the caller).
\<close>

datatype js_error = TypeError | Thrown string

type_synonym 'a js_result = "js_error + 'a"

text \<open>
  A statement that has effects finishes in a state, normally or by a throw; the effects
  made before a throw stay.
\<close>

datatype 's completion = Normal 's | Abrupt js_error 's

text \<open>The operators \<open>&&\<close>, \<open>||\<close> and \<open>!\<close> on boolean operands; the right operand of
  \<open>&&\<close> and \<open>||\<close> is only evaluated (so only throws) when the left one does not decide.\<close>

definition js_and :: "bool js_result \<Rightarrow> bool js_result \<Rightarrow> bool js_result" where
  "js_and a b = (case a of Inl e \<Rightarrow> Inl e | Inr x \<Rightarrow> if x then b else Inr False)"

definition js_or :: "bool js_result \<Rightarrow> bool js_result \<Rightarrow> bool js_result" where
  "js_or a b = (case a of Inl e \<Rightarrow> Inl e | Inr x \<Rightarrow> if x then Inr True else b)"

definition js_not :: "bool js_result \<Rightarrow> bool js_result" where
  "js_not a = (case a of Inl e \<Rightarrow> Inl e | Inr x \<Rightarrow> Inr (\<not> x))"

subsection \<open>The ambient global object\<close>

text \<open>
  \<open>globalThis.navigator\<close> may be missing (\<open>None\<close>: a runtime without a navigator), and
  the navigator's \<open>userAgent\<close> property may be missing (\<open>None\<close>: reading it gives
  \<open>undefined\<close>). A string is a list of characters; the pattern searched for is ASCII.
\<close>

record Navigator =
  userAgent :: "string option"

record globalThis =
  navigator :: "Navigator option"

text \<open>\<open>ToString\<close> of the argument of \<open>RegExp.prototype.test\<close>: \<open>undefined\<close> becomes the
  string \<open>"undefined"\<close>.\<close>

definition ToString :: "string option \<Rightarrow> string" where
  "ToString v = (case v of None \<Rightarrow> ''undefined'' | Some s \<Rightarrow> s)"

text \<open>A regular expression that is a literal string, without flags: \<open>test\<close> tries the
  literal at every start position of the input, from the left.\<close>

fun matches_at :: "string \<Rightarrow> string \<Rightarrow> bool" where
  "matches_at [] s = True"
| "matches_at (p # ps) [] = False"
| "matches_at (p # ps) (c # cs) = (p = c \<and> matches_at ps cs)"

fun regexp_test :: "string \<Rightarrow> string \<Rightarrow> bool" where
  "regexp_test pat [] = matches_at pat []"
| "regexp_test pat (c # cs) = (matches_at pat (c # cs) \<or> regexp_test pat cs)"

text \<open>\<open>const isMacOS = (): boolean => /Mac/.test(globalThis.navigator.userAgent)\<close>\<close>

definition isMacOS :: "globalThis \<Rightarrow> bool js_result" where
  "isMacOS g =
     (case navigator g of
        None \<Rightarrow> Inl TypeError
      | Some n \<Rightarrow> Inr (regexp_test ''Mac'' (ToString (userAgent n))))"

text \<open>What the unit tests' \<open>mockUserAgent(ua)\<close> installs.\<close>

definition mockUserAgent :: "string \<Rightarrow> globalThis" where
  "mockUserAgent ua = \<lparr>navigator = Some \<lparr>userAgent = Some ua\<rparr>\<rparr>"

subsection \<open>Events, predicates and the \<open>Key\<close> catalog\<close>

record Event =
  key :: string

text \<open>
  A \<open>CheckKeypress\<close> is called with the event; it may read the ambient global object,
  and it may throw. It writes nothing: the entries of \<open>Key\<close> only read \<open>ev.key\<close> and the
  user agent, and the specification takes every predicate to be a pure function, so the
  event is an immutable value here.
\<close>

type_synonym CheckKeypress = "globalThis \<Rightarrow> Event \<Rightarrow> bool js_result"

definition Key_Enter :: CheckKeypress where
  "Key_Enter g ev = Inr (key ev = ''Enter'')"

definition Key_Backspace :: CheckKeypress where
  "Key_Backspace g ev = Inr (key ev = ''Backspace'')"

definition Key_Shift :: CheckKeypress where
  "Key_Shift g ev = Inr (key ev = ''Shift'')"

definition Key_Escape :: CheckKeypress where
  "Key_Escape g ev = Inr (key ev = ''Escape'')"

definition Key_Tab :: CheckKeypress where
  "Key_Tab g ev = Inr (key ev = ''Tab'')"

definition Key_Control :: CheckKeypress where
  "Key_Control g ev = Inr (key ev = ''Control'')"

definition Key_Meta :: CheckKeypress where
  "Key_Meta g ev = Inr (key ev = ''Meta'')"

definition Key_Alt :: CheckKeypress where
  "Key_Alt g ev = Inr (key ev = ''Alt'')"

definition Key_Spacebar :: CheckKeypress where
  "Key_Spacebar g ev = Inr (key ev = '' '')"

definition Key_Up :: CheckKeypress where
  "Key_Up g ev = Inr (key ev = ''ArrowUp'')"

definition Key_Down :: CheckKeypress where
  "Key_Down g ev = Inr (key ev = ''ArrowDown'')"

definition Key_Left :: CheckKeypress where
  "Key_Left g ev = Inr (key ev = ''ArrowLeft'')"

definition Key_Right :: CheckKeypress where
  "Key_Right g ev = Inr (key ev = ''ArrowRight'')"

definition Key_CtrlWin :: CheckKeypress where
  "Key_CtrlWin g ev = js_and (Inr (key ev = ''Control'')) (js_not (isMacOS g))"

definition Key_WindowsKey :: CheckKeypress where
  "Key_WindowsKey g ev = js_and (Inr (key ev = ''Meta'')) (js_not (isMacOS g))"

definition Key_CtrlMac :: CheckKeypress where
  "Key_CtrlMac g ev = js_and (Inr (key ev = ''Control'')) (isMacOS g)"

definition Key_Command :: CheckKeypress where
  "Key_Command g ev = js_and (Inr (key ev = ''Meta'')) (isMacOS g)"

definition Key_mod1 :: CheckKeypress where
  "Key_mod1 g ev =
     js_or (js_and (Inr (key ev = ''Control'')) (js_not (isMacOS g)))
           (js_and (Inr (key ev = ''Meta'')) (isMacOS g))"

definition Key_mod2 :: CheckKeypress where
  "Key_mod2 g ev =
     js_or (js_and (Inr (key ev = ''Control'')) (isMacOS g))
           (js_and (Inr (key ev = ''Meta'')) (js_not (isMacOS g)))"


subsection \<open>Rules: \<open>checkKeystroke\<close>\<close>

text \<open>
  A callback is arbitrary caller code: run on the event in an application state \<open>'u\<close>, it
  finishes normally or throws, in a state that holds whatever it did until then.
\<close>

type_synonym 'u callback = "Event \<Rightarrow> 'u \<Rightarrow> 'u completion"

record 'u Keystroke =
  keys :: "CheckKeypress list"
  except :: "CheckKeypress list"
  cb :: "'u callback"

text \<open>\<open>Array.prototype.reduce(f, init)\<close>: \<open>f\<close> is called on every element, from the left,
  with the accumulator; a throw of \<open>f\<close> ends the reduction.\<close>

fun reduce :: "('b \<Rightarrow> 'a \<Rightarrow> 'b js_result) \<Rightarrow> 'a list \<Rightarrow> 'b \<Rightarrow> 'b js_result" where
  "reduce f [] accumulator = Inr accumulator"
| "reduce f (x # xs) accumulator =
     (case f accumulator x of Inl e \<Rightarrow> Inl e | Inr a \<Rightarrow> reduce f xs a)"

definition checkKeystroke :: "'u Keystroke \<Rightarrow> globalThis \<Rightarrow> Event \<Rightarrow> bool js_result" where
  "checkKeystroke keystroke g ev =
     js_and
       (reduce (\<lambda>accumulator currentValue. js_and (Inr accumulator) (currentValue g ev))
          (keys keystroke) True)
       (reduce (\<lambda>accumulator currentValue. js_and (Inr accumulator) (js_not (currentValue g ev)))
          (except keystroke) True)"

subsection \<open>The dispatcher: \<open>handleKeyboard\<close>\<close>

text \<open>
  The state of one dispatch: the application state the callbacks work on, and the record
  of the calls made so far (which callback, with which event), kept to state which
  callbacks a dispatch invokes. A call is recorded when it is made, whether the callback
  then returns or throws.
\<close>

record 'u dispatch =
  calls :: "('u callback \<times> Event) list"
  app :: 'u

definition invoke :: "'u callback \<Rightarrow> Event \<Rightarrow> 'u dispatch \<Rightarrow> 'u dispatch completion" where
  "invoke f ev s =
     (case f ev (app s) of
        Normal u \<Rightarrow> Normal \<lparr>calls = calls s @ [(f, ev)], app = u\<rparr>
      | Abrupt e u \<Rightarrow> Abrupt e \<lparr>calls = calls s @ [(f, ev)], app = u\<rparr>)"

text \<open>\<open>Array.prototype.forEach(f)\<close>: \<open>f\<close> runs on every element, from the left; a throw
  of \<open>f\<close> ends the loop and leaves the function.\<close>

fun forEach :: "('a \<Rightarrow> 's \<Rightarrow> 's completion) \<Rightarrow> 'a list \<Rightarrow> 's \<Rightarrow> 's completion" where
  "forEach f [] s = Normal s"
| "forEach f (x # xs) s =
     (case f x s of Normal s' \<Rightarrow> forEach f xs s' | Abrupt e s' \<Rightarrow> Abrupt e s')"

text \<open>
  \<open>handleKeyboard(keystrokes)\<close> is the closure \<open>handleKeyboard keystrokes\<close>; the closure is
  called with the event, in the ambient global object \<open>g\<close> of that moment. The module
  only reads \<open>g\<close> and the event, and callbacks are taken to act on the application state:
  the global object and the event stay as they are during one dispatch.
\<close>

definition handleKeyboard ::
  "'u Keystroke list \<Rightarrow> globalThis \<Rightarrow> Event \<Rightarrow> 'u dispatch \<Rightarrow> 'u dispatch completion" where
  "handleKeyboard keystrokes g ev =
     forEach
       (\<lambda>keystroke s.
          case checkKeystroke keystroke g ev of
            Inl e \<Rightarrow> Abrupt e s
          | Inr b \<Rightarrow> if b then invoke (cb keystroke) ev s else Normal s)
       keystrokes"

text \<open>The state a completion ends in.\<close>

fun state_of :: "'s completion \<Rightarrow> 's" where
  "state_of (Normal s) = s"
| "state_of (Abrupt e s) = s"

text \<open>The rules of a set that a given event satisfies, in the set's order.\<close>

definition matching :: "'u Keystroke list \<Rightarrow> globalThis \<Rightarrow> Event \<Rightarrow> 'u Keystroke list" where
  "matching keystrokes g ev = filter (\<lambda>k. checkKeystroke k g ev = Inr True) keystrokes"

subsection \<open>Rule satisfaction in the program state\<close>

text \<open>
  To state what an evaluation of \<open>checkKeystroke\<close> leaves unchanged and what it does not
  depend on, the same function is written once more with the program state explicit. The
  world is the ambient global object together with \<open>heap\<close>, everything else the program
  holds (what closures keep, what earlier events and callbacks left). A predicate with
  effects is called with the event in a world; it gives its result, the event as it is
  afterwards and the world as it is afterwards.
\<close>

record 'h world =
  global :: globalThis
  heap :: 'h

type_synonym 'h effectful = "Event \<Rightarrow> 'h world \<Rightarrow> bool js_result \<times> Event \<times> 'h world"


text \<open>\<open>Array.prototype.reduce\<close> with a callback that has effects on a state \<open>'s\<close>.\<close>

fun reduce_effects ::
  "('b \<Rightarrow> 'a \<Rightarrow> 's \<Rightarrow> 'b js_result \<times> 's) \<Rightarrow> 'a list \<Rightarrow> 'b \<Rightarrow> 's \<Rightarrow> 'b js_result \<times> 's" where
  "reduce_effects f [] accumulator s = (Inr accumulator, s)"
| "reduce_effects f (x # xs) accumulator s =
     (case f accumulator x s of
        (Inl e, s') \<Rightarrow> (Inl e, s')
      | (Inr a, s') \<Rightarrow> reduce_effects f xs a s')"

text \<open>
  \<open>checkKeystroke\<close> on a rule given by its two lists of predicates with effects. The one
  event object is passed to every predicate, so each predicate sees what the ones before
  it did to the event and to the world.
\<close>

definition checkKeystroke_effects ::
  "'h effectful list \<Rightarrow> 'h effectful list \<Rightarrow> Event \<Rightarrow> 'h world
     \<Rightarrow> bool js_result \<times> Event \<times> 'h world" where
  "checkKeystroke_effects required excluded ev w =
     (case reduce_effects
             (\<lambda>accumulator currentValue (ev, w).
                if accumulator then currentValue ev w else (Inr False, ev, w))
             required True (ev, w) of
        (Inl e, s) \<Rightarrow> (Inl e, s)
      | (Inr a, s) \<Rightarrow>
          if a
          then reduce_effects
                 (\<lambda>accumulator currentValue (ev, w).
                    if accumulator
                    then (case currentValue ev w of (r, s') \<Rightarrow> (js_not r, s'))
                    else (Inr False, ev, w))
                 excluded True s
          else (Inr False, s))"

text \<open>A predicate of a caller that keeps a count of its calls in the heap and answers by
  it, and one that rewrites the key of the event it is given.\<close>

definition every_other_call :: "nat effectful" where
  "every_other_call ev w = (Inr (even (heap w)), ev, w\<lparr>heap := Suc (heap w)\<rparr>)"

definition rewriting_key :: "nat effectful" where
  "rewriting_key ev w = (Inr True, ev\<lparr>key := ''Tab''\<rparr>, w)"

subsection \<open>The eager reference evaluation of a rule\<close>

text \<open>
  The specification's reference: every predicate of both lists is evaluated, whatever the
  others gave, and the result is the conjunction of the required predicates' results and
  of the negated excluded predicates' results.
\<close>

fun eval_all :: "CheckKeypress list \<Rightarrow> globalThis \<Rightarrow> Event \<Rightarrow> bool list js_result" where
  "eval_all [] g ev = Inr []"
| "eval_all (p # ps) g ev =
     (case p g ev of
        Inl e \<Rightarrow> Inl e
      | Inr b \<Rightarrow> (case eval_all ps g ev of Inl e \<Rightarrow> Inl e | Inr bs \<Rightarrow> Inr (b # bs)))"

definition checkKeystroke_eager :: "'u Keystroke \<Rightarrow> globalThis \<Rightarrow> Event \<Rightarrow> bool js_result" where
  "checkKeystroke_eager keystroke g ev =
     (case eval_all (keys keystroke) g ev of
        Inl e \<Rightarrow> Inl e
      | Inr required \<Rightarrow>
          (case eval_all (except keystroke) g ev of
             Inl e \<Rightarrow> Inl e
           | Inr excluded \<Rightarrow> Inr (list_all (\<lambda>b. b) required \<and> list_all (\<lambda>b. \<not> b) excluded)))"

subsection \<open>Concrete inputs\<close>

text \<open>The user agents of the repository's unit tests, with the results the tests expect.\<close>

definition ua_Safari_macOS :: string where
  "ua_Safari_macOS = ''Mozilla/5.0 (Macintosh; Intel Mac OS X 10_15_7) AppleWebKit/605.1.15 (KHTML, like Gecko) Version/14.0 Safari/605.1.15''"

definition ua_Chrome_macOS :: string where
  "ua_Chrome_macOS = ''Mozilla/5.0 (Macintosh; Intel Mac OS X 10_15_7) AppleWebKit/537.36 (KHTML, like Gecko) Chrome/114.0.0.0 Safari/537.36''"

definition ua_Edge_Windows :: string where
  "ua_Edge_Windows = ''Mozilla/5.0 (Windows NT 10.0; Win64; x64) AppleWebKit/537.36 (KHTML, like Gecko) Chrome/42.0.2311.135 Safari/537.36 Edge/12.246''"

definition ua_Android :: string where
  "ua_Android = ''Mozilla/5.0 (Linux; Android 10; SM-G973F) AppleWebKit/537.36 (KHTML, like Gecko) Chrome/112.0.0.0 Mobile Safari/537.36''"

definition ua_iPhone :: string where
  "ua_iPhone = ''Mozilla/5.0 (iPhone; CPU iPhone OS 15_4 like Mac OS X) AppleWebKit/605.1.15 (KHTML, like Gecko) Version/15.4 Mobile/19E241 Safari/604.1''"

definition testCasesIsMacOS :: "(string \<times> bool) list" where
  "testCasesIsMacOS =
     [(ua_Safari_macOS, True), (ua_Chrome_macOS, True), (ua_Edge_Windows, False),
      (ua_Android, False), (ua_iPhone, False)]"

text \<open>A runtime whose global object has no \<open>navigator\<close>.\<close>

definition no_navigator :: globalThis where
  "no_navigator = \<lparr>navigator = None\<rparr>"

text \<open>Callbacks on a counter: one counts its calls, one throws before doing anything.\<close>

definition counting :: "nat callback" where
  "counting ev u = Normal (Suc u)"

definition throwing :: "nat callback" where
  "throwing ev u = Abrupt (Thrown ''callback failed'') u"

definition start :: "nat dispatch" where
  "start = \<lparr>calls = [], app = 0\<rparr>"

section \<open>Properties\<close>

subsection \<open>Literal search and the boolean operators\<close>

lemma matches_at_iff: "matches_at pat s \<longleftrightarrow> (\<exists>ss. s = pat @ ss)"
  by (induction pat s rule: matches_at.induct) auto

lemma regexp_test_iff: "regexp_test pat s \<longleftrightarrow> (\<exists>ps ss. s = ps @ pat @ ss)"
proof (induction s)
  case Nil
  show ?case by (simp add: matches_at_iff)
next
  case (Cons c cs)
  show ?case
  proof
    assume "regexp_test pat (c # cs)"
    then consider "matches_at pat (c # cs)" | "regexp_test pat cs" by auto
    then show "\<exists>ps ss. c # cs = ps @ pat @ ss"
    proof cases
      case 1
      then obtain ss where "c # cs = pat @ ss" by (auto simp: matches_at_iff)
      then have "c # cs = [] @ pat @ ss" by simp
      then show ?thesis by blast
    next
      case 2
      with Cons obtain ps ss where "cs = ps @ pat @ ss" by blast
      then have "c # cs = (c # ps) @ pat @ ss" by simp
      then show ?thesis by blast
    qed
  next
    assume "\<exists>ps ss. c # cs = ps @ pat @ ss"
    then obtain ps ss where eq: "c # cs = ps @ pat @ ss" by blast
    show "regexp_test pat (c # cs)"
    proof (cases ps)
      case Nil
      with eq have "matches_at pat (c # cs)" by (simp add: matches_at_iff)
      then show ?thesis by simp
    next
      case (Cons q qs)
      with eq have "cs = qs @ pat @ ss" by simp
      with Cons.IH have "regexp_test pat cs" by blast
      then show ?thesis by simp
    qed
  qed
qed

lemma js_and_Inr [simp]: "js_and (Inr x) b = (if x then b else Inr False)"
  by (simp add: js_and_def)

lemma js_or_Inr [simp]: "js_or (Inr x) b = (if x then Inr True else b)"
  by (simp add: js_or_def)

lemma js_and_Inl [simp]: "js_and (Inl e) b = Inl e"
  by (simp add: js_and_def)

lemma js_or_Inl [simp]: "js_or (Inl e) b = Inl e"
  by (simp add: js_or_def)

lemma js_not_simps [simp]: "js_not (Inr x) = Inr (\<not> x)" "js_not (Inl e) = Inl e"
  by (simp_all add: js_not_def)

lemma reduce_keys_False:
  "reduce (\<lambda>accumulator currentValue. if accumulator then f currentValue else Inr False) ps False = Inr False"
  by (induction ps) simp_all

lemma reduce_and_True_iff:
  "reduce (\<lambda>accumulator currentValue. if accumulator then f currentValue else Inr False) ps True = Inr True
     \<longleftrightarrow> (\<forall>p\<in>set ps. f p = Inr True)"
proof (induction ps)
  case Nil
  show ?case by simp
next
  case (Cons p ps)
  show ?case
  proof (cases "f p")
    case (Inl e)
    then show ?thesis by simp
  next
    case (Inr b)
    with Cons show ?thesis by (cases b) (simp_all add: reduce_keys_False)
  qed
qed

lemma reduce_and_value:
  "\<forall>p\<in>set ps. \<exists>b. f p = Inr b \<Longrightarrow>
   reduce (\<lambda>accumulator currentValue. if accumulator then f currentValue else Inr False) ps True
     = Inr (\<forall>p\<in>set ps. f p = Inr True)"
proof (induction ps)
  case Nil
  show ?case by simp
next
  case (Cons p ps)
  then obtain b where b: "f p = Inr b" by auto
  with Cons show ?case by (cases b) (simp_all add: reduce_keys_False)
qed

lemma js_not_True_iff: "js_not a = Inr True \<longleftrightarrow> a = Inr False"
  by (cases a) auto

lemma checkKeystroke_True_iff:
  "checkKeystroke k g ev = Inr True \<longleftrightarrow>
     (\<forall>p\<in>set (keys k). p g ev = Inr True) \<and> (\<forall>p\<in>set (except k). p g ev = Inr False)"
proof -
  let ?K = "reduce (\<lambda>accumulator currentValue. if accumulator then currentValue g ev else Inr False) (keys k) True"
  let ?E = "reduce (\<lambda>accumulator currentValue. if accumulator then js_not (currentValue g ev) else Inr False) (except k) True"
  have "js_and ?K ?E = Inr True \<longleftrightarrow> ?K = Inr True \<and> ?E = Inr True"
    by (cases ?K) (auto split: if_splits)
  then show ?thesis
    unfolding checkKeystroke_def
    using reduce_and_True_iff [of "\<lambda>p. p g ev" "keys k"]
      reduce_and_True_iff [of "\<lambda>p. js_not (p g ev)" "except k"]
    by (simp add: js_not_True_iff)
qed

lemma checkKeystroke_value:
  assumes "\<forall>p\<in>set (keys k). \<exists>b. p g ev = Inr b" and "\<forall>p\<in>set (except k). \<exists>b. p g ev = Inr b"
  shows "checkKeystroke k g ev =
     Inr ((\<forall>p\<in>set (keys k). p g ev = Inr True) \<and> (\<forall>p\<in>set (except k). p g ev = Inr False))"
proof -
  have e: "\<forall>p\<in>set (except k). \<exists>b. js_not (p g ev) = Inr b"
    using assms(2) by fastforce
  show ?thesis
    unfolding checkKeystroke_def
    using reduce_and_value [of "keys k" "\<lambda>p. p g ev", OF assms(1)]
      reduce_and_value [of "except k" "\<lambda>p. js_not (p g ev)", OF e]
    by (simp add: js_not_True_iff)
qed

subsection \<open>The platform detector\<close>

lemma isMacOS_mock: "isMacOS (mockUserAgent ua) = Inr (regexp_test ''Mac'' ua)"
  by (simp add: isMacOS_def mockUserAgent_def ToString_def)

text \<open>
  Claim C3. For every user-agent string, \<open>isMacOS()\<close> returns true when the string
  contains \<open>Mac\<close> somewhere and false when it does not, the empty string included. The
  iPhone user agent of the unit tests contains \<open>like Mac OS X\<close>, so the substring test
  alone decides it: the result is true. The last conjunct runs the five user agents of
  \<open>testCasesIsMacOS\<close>.
\<close>

theorem isMacOS_substring:
  "isMacOS (mockUserAgent ua) = Inr (\<exists>ps ss. ua = ps @ ''Mac'' @ ss)
   \<and> isMacOS (mockUserAgent '''') = Inr False
   \<and> isMacOS (mockUserAgent ua_iPhone) = Inr True
   \<and> map (\<lambda>c. isMacOS (mockUserAgent (fst c))) testCasesIsMacOS
       = [Inr True, Inr True, Inr False, Inr False, Inr True]"
proof (intro conjI)
  show "isMacOS (mockUserAgent ua) = Inr (\<exists>ps ss. ua = ps @ ''Mac'' @ ss)"
    by (simp only: isMacOS_mock regexp_test_iff)
  show "isMacOS (mockUserAgent '''') = Inr False"
    by (simp add: isMacOS_mock)
  show "isMacOS (mockUserAgent ua_iPhone) = Inr True"
    by (simp add: isMacOS_mock ua_iPhone_def)
  show "map (\<lambda>c. isMacOS (mockUserAgent (fst c))) testCasesIsMacOS
       = [Inr True, Inr True, Inr False, Inr False, Inr True]"
    by (simp add: isMacOS_mock testCasesIsMacOS_def ua_iPhone_def ua_Android_def
        ua_Edge_Windows_def ua_Chrome_macOS_def ua_Safari_macOS_def)
qed

text \<open>The fifth unit test expects false for the iPhone user agent; the code gives true.\<close>

lemma testCasesIsMacOS_iPhone:
  "(ua_iPhone, False) \<in> set testCasesIsMacOS \<and> isMacOS (mockUserAgent ua_iPhone) = Inr True"
  by (simp add: testCasesIsMacOS_def isMacOS_mock) (simp add: ua_iPhone_def)

text \<open>
  Claim C4, as stated, fails: where the global object has no \<open>navigator\<close>, the property
  read \<open>globalThis.navigator.userAgent\<close> throws a \<open>TypeError\<close>.
\<close>

theorem isMacOS_throws_without_navigator: "isMacOS no_navigator = Inl TypeError"
  by (simp add: isMacOS_def no_navigator_def)

text \<open>
  Claim C4, amended. Whenever the \<open>navigator\<close> object exists, \<open>isMacOS()\<close> completes
  normally, whatever the user-agent value is, and a missing or empty user agent gives false.
  Without a \<open>navigator\<close> object the call throws a \<open>TypeError\<close>.
\<close>

theorem isMacOS_completes:
  "(navigator g = Some n \<longrightarrow> (\<exists>b. isMacOS g = Inr b))
   \<and> (navigator g = Some n \<and> (userAgent n = None \<or> userAgent n = Some '''') \<longrightarrow>
        isMacOS g = Inr False)
   \<and> (navigator g = None \<longrightarrow> isMacOS g = Inl TypeError)"
  by (auto simp: isMacOS_def ToString_def)

theorem isMacOS_completes_witness:
  "isMacOS \<lparr>navigator = Some \<lparr>userAgent = None\<rparr>\<rparr> = Inr False
   \<and> isMacOS \<lparr>navigator = Some \<lparr>userAgent = Some ''''\<rparr>\<rparr> = Inr False
   \<and> isMacOS \<lparr>navigator = Some \<lparr>userAgent = Some ua_Safari_macOS\<rparr>\<rparr> = Inr True
   \<and> isMacOS \<lparr>navigator = None\<rparr> = Inl TypeError"
  using isMacOS_completes [of "\<lparr>navigator = Some \<lparr>userAgent = None\<rparr>\<rparr>" "\<lparr>userAgent = None\<rparr>"]
    isMacOS_completes [of "\<lparr>navigator = Some \<lparr>userAgent = Some ''''\<rparr>\<rparr>" "\<lparr>userAgent = Some ''''\<rparr>"]
    isMacOS_completes [of "\<lparr>navigator = None\<rparr>"]
  by (simp add: isMacOS_def ToString_def ua_Safari_macOS_def)

subsection \<open>Rule satisfaction\<close>

text \<open>
  Claim C1. \<open>checkKeystroke(rule, event)\<close> returns true if and only if every predicate of
  \<open>keys\<close> gives true on the event and every predicate of \<open>except\<close> gives false on it; with
  both lists empty it returns true on any event. Where every predicate returns a value,
  the call returns that conjunction.
\<close>

theorem checkKeystroke_iff:
  "(checkKeystroke k g ev = Inr True \<longleftrightarrow>
      (\<forall>p\<in>set (keys k). p g ev = Inr True) \<and> (\<forall>p\<in>set (except k). p g ev = Inr False))
   \<and> (keys k = [] \<and> except k = [] \<longrightarrow> checkKeystroke k g ev = Inr True)
   \<and> ((\<forall>p\<in>set (keys k) \<union> set (except k). \<exists>b. p g ev = Inr b) \<longrightarrow>
        checkKeystroke k g ev =
          Inr ((\<forall>p\<in>set (keys k). p g ev = Inr True) \<and> (\<forall>p\<in>set (except k). p g ev = Inr False)))"
proof (intro conjI impI)
  show "checkKeystroke k g ev = Inr True \<longleftrightarrow>
      (\<forall>p\<in>set (keys k). p g ev = Inr True) \<and> (\<forall>p\<in>set (except k). p g ev = Inr False)"
    by (rule checkKeystroke_True_iff)
next
  assume "keys k = [] \<and> except k = []"
  then show "checkKeystroke k g ev = Inr True"
    by (simp add: checkKeystroke_True_iff)
next
  assume "\<forall>p\<in>set (keys k) \<union> set (except k). \<exists>b. p g ev = Inr b"
  then show "checkKeystroke k g ev =
          Inr ((\<forall>p\<in>set (keys k). p g ev = Inr True) \<and> (\<forall>p\<in>set (except k). p g ev = Inr False))"
    by (intro checkKeystroke_value) auto
qed

theorem checkKeystroke_iff_witness:
  "Key_Enter (mockUserAgent ua_Edge_Windows) \<lparr>key = ''Enter''\<rparr> = Inr True
   \<and> Key_Shift (mockUserAgent ua_Edge_Windows) \<lparr>key = ''Enter''\<rparr> = Inr False
   \<and> checkKeystroke \<lparr>keys = [Key_Enter], except = [Key_Shift], cb = counting\<rparr>
        (mockUserAgent ua_Edge_Windows) \<lparr>key = ''Enter''\<rparr> = Inr True
   \<and> checkKeystroke \<lparr>keys = [Key_Enter], except = [Key_Shift], cb = counting\<rparr>
        (mockUserAgent ua_Edge_Windows) \<lparr>key = ''Shift''\<rparr> = Inr False
   \<and> checkKeystroke \<lparr>keys = [], except = [], cb = counting\<rparr>
        (mockUserAgent ua_Edge_Windows) \<lparr>key = ''Shift''\<rparr> = Inr True"
  using checkKeystroke_iff [of "\<lparr>keys = [Key_Enter], except = [Key_Shift], cb = counting\<rparr>"
      "mockUserAgent ua_Edge_Windows" "\<lparr>key = ''Enter''\<rparr>"]
    checkKeystroke_iff [of "\<lparr>keys = [Key_Enter], except = [Key_Shift], cb = counting\<rparr>"
      "mockUserAgent ua_Edge_Windows" "\<lparr>key = ''Shift''\<rparr>"]
    checkKeystroke_iff [of "\<lparr>keys = [], except = [], cb = counting\<rparr>"
      "mockUserAgent ua_Edge_Windows" "\<lparr>key = ''Shift''\<rparr>"]
  by (auto simp: Key_Enter_def Key_Shift_def)

lemmas Key_literal_defs =
  Key_Enter_def Key_Backspace_def Key_Shift_def Key_Escape_def Key_Tab_def Key_Control_def
  Key_Meta_def Key_Alt_def Key_Spacebar_def Key_Up_def Key_Down_def Key_Left_def Key_Right_def

lemmas Key_platform_defs =
  Key_CtrlWin_def Key_WindowsKey_def Key_CtrlMac_def Key_Command_def Key_mod1_def Key_mod2_def

subsection \<open>The catalog\<close>

text \<open>
  Claim C5. Every entry of \<open>Key\<close> computes its specified function of the event's key
  string and the platform. The thirteen literal entries compare the key, exactly, with one
  constant. Each platform entry returns true exactly under its condition on the key and
  on what \<open>isMacOS()\<close> returns at that call, and, where \<open>isMacOS()\<close> returns \<open>mac\<close>,
  its result is the specified boolean; the platform is an argument of every call, read
  again each time.
\<close>

theorem Key_catalog:
  "Key_Enter g ev = Inr (key ev = ''Enter'')
   \<and> Key_Backspace g ev = Inr (key ev = ''Backspace'')
   \<and> Key_Shift g ev = Inr (key ev = ''Shift'')
   \<and> Key_Escape g ev = Inr (key ev = ''Escape'')
   \<and> Key_Tab g ev = Inr (key ev = ''Tab'')
   \<and> Key_Control g ev = Inr (key ev = ''Control'')
   \<and> Key_Meta g ev = Inr (key ev = ''Meta'')
   \<and> Key_Alt g ev = Inr (key ev = ''Alt'')
   \<and> Key_Spacebar g ev = Inr (key ev = '' '')
   \<and> Key_Up g ev = Inr (key ev = ''ArrowUp'')
   \<and> Key_Down g ev = Inr (key ev = ''ArrowDown'')
   \<and> Key_Left g ev = Inr (key ev = ''ArrowLeft'')
   \<and> Key_Right g ev = Inr (key ev = ''ArrowRight'')
   \<and> (Key_CtrlWin g ev = Inr True \<longleftrightarrow> key ev = ''Control'' \<and> isMacOS g = Inr False)
   \<and> (Key_WindowsKey g ev = Inr True \<longleftrightarrow> key ev = ''Meta'' \<and> isMacOS g = Inr False)
   \<and> (Key_CtrlMac g ev = Inr True \<longleftrightarrow> key ev = ''Control'' \<and> isMacOS g = Inr True)
   \<and> (Key_Command g ev = Inr True \<longleftrightarrow> key ev = ''Meta'' \<and> isMacOS g = Inr True)
   \<and> (Key_mod1 g ev = Inr True \<longleftrightarrow>
        (key ev = ''Control'' \<and> isMacOS g = Inr False) \<or> (key ev = ''Meta'' \<and> isMacOS g = Inr True))
   \<and> (Key_mod2 g ev = Inr True \<longleftrightarrow>
        (key ev = ''Control'' \<and> isMacOS g = Inr True) \<or> (key ev = ''Meta'' \<and> isMacOS g = Inr False))
   \<and> (isMacOS g = Inr mac \<longrightarrow>
        Key_CtrlWin g ev = Inr (key ev = ''Control'' \<and> \<not> mac)
        \<and> Key_WindowsKey g ev = Inr (key ev = ''Meta'' \<and> \<not> mac)
        \<and> Key_CtrlMac g ev = Inr (key ev = ''Control'' \<and> mac)
        \<and> Key_Command g ev = Inr (key ev = ''Meta'' \<and> mac)
        \<and> Key_mod1 g ev = Inr ((key ev = ''Control'' \<and> \<not> mac) \<or> (key ev = ''Meta'' \<and> mac))
        \<and> Key_mod2 g ev = Inr ((key ev = ''Control'' \<and> mac) \<or> (key ev = ''Meta'' \<and> \<not> mac)))"
proof -
  have literal: "Key_Enter g ev = Inr (key ev = ''Enter'')"
    "Key_Backspace g ev = Inr (key ev = ''Backspace'')"
    "Key_Shift g ev = Inr (key ev = ''Shift'')"
    "Key_Escape g ev = Inr (key ev = ''Escape'')"
    "Key_Tab g ev = Inr (key ev = ''Tab'')"
    "Key_Control g ev = Inr (key ev = ''Control'')"
    "Key_Meta g ev = Inr (key ev = ''Meta'')"
    "Key_Alt g ev = Inr (key ev = ''Alt'')"
    "Key_Spacebar g ev = Inr (key ev = '' '')"
    "Key_Up g ev = Inr (key ev = ''ArrowUp'')"
    "Key_Down g ev = Inr (key ev = ''ArrowDown'')"
    "Key_Left g ev = Inr (key ev = ''ArrowLeft'')"
    "Key_Right g ev = Inr (key ev = ''ArrowRight'')"
    by (simp_all add: Key_literal_defs)
  have true_iff:
    "Key_CtrlWin g ev = Inr True \<longleftrightarrow> key ev = ''Control'' \<and> isMacOS g = Inr False"
    "Key_WindowsKey g ev = Inr True \<longleftrightarrow> key ev = ''Meta'' \<and> isMacOS g = Inr False"
    "Key_CtrlMac g ev = Inr True \<longleftrightarrow> key ev = ''Control'' \<and> isMacOS g = Inr True"
    "Key_Command g ev = Inr True \<longleftrightarrow> key ev = ''Meta'' \<and> isMacOS g = Inr True"
    "Key_mod1 g ev = Inr True \<longleftrightarrow>
        (key ev = ''Control'' \<and> isMacOS g = Inr False) \<or> (key ev = ''Meta'' \<and> isMacOS g = Inr True)"
    "Key_mod2 g ev = Inr True \<longleftrightarrow>
        (key ev = ''Control'' \<and> isMacOS g = Inr True) \<or> (key ev = ''Meta'' \<and> isMacOS g = Inr False)"
    by (cases "isMacOS g"; simp add: Key_platform_defs)+
  have on_platform: "Key_CtrlWin g ev = Inr (key ev = ''Control'' \<and> \<not> mac)
        \<and> Key_WindowsKey g ev = Inr (key ev = ''Meta'' \<and> \<not> mac)
        \<and> Key_CtrlMac g ev = Inr (key ev = ''Control'' \<and> mac)
        \<and> Key_Command g ev = Inr (key ev = ''Meta'' \<and> mac)
        \<and> Key_mod1 g ev = Inr ((key ev = ''Control'' \<and> \<not> mac) \<or> (key ev = ''Meta'' \<and> mac))
        \<and> Key_mod2 g ev = Inr ((key ev = ''Control'' \<and> mac) \<or> (key ev = ''Meta'' \<and> \<not> mac))"
    if "isMacOS g = Inr mac"
    using that by (simp add: Key_platform_defs)
  from literal true_iff on_platform show ?thesis by blast
qed

theorem Key_catalog_witness:
  "isMacOS (mockUserAgent ua_Chrome_macOS) = Inr True
   \<and> Key_mod1 (mockUserAgent ua_Chrome_macOS) \<lparr>key = ''Meta''\<rparr> = Inr True
   \<and> Key_mod2 (mockUserAgent ua_Chrome_macOS) \<lparr>key = ''Meta''\<rparr> = Inr False
   \<and> Key_Command (mockUserAgent ua_Chrome_macOS) \<lparr>key = ''Meta''\<rparr> = Inr True
   \<and> Key_WindowsKey (mockUserAgent ua_Chrome_macOS) \<lparr>key = ''Meta''\<rparr> = Inr False
   \<and> Key_Meta (mockUserAgent ua_Chrome_macOS) \<lparr>key = ''Meta''\<rparr> = Inr True
   \<and> Key_Meta (mockUserAgent ua_Chrome_macOS) \<lparr>key = ''meta''\<rparr> = Inr False"
proof -
  have mac: "isMacOS (mockUserAgent ua_Chrome_macOS) = Inr True"
    by (simp add: isMacOS_mock ua_Chrome_macOS_def)
  show ?thesis
    using mac Key_catalog [of "mockUserAgent ua_Chrome_macOS" "\<lparr>key = ''Meta''\<rparr>" True]
      Key_catalog [of "mockUserAgent ua_Chrome_macOS" "\<lparr>key = ''meta''\<rparr>" True]
    by simp
qed

text \<open>
  Claim C6. On no event and in no environment are \<open>mod1\<close> and \<open>mod2\<close> both true. On
  macOS \<open>mod1\<close> is true on the key \<open>Meta\<close> and false on \<open>Control\<close>; elsewhere it is true
  on \<open>Control\<close> and false on \<open>Meta\<close>.
\<close>

theorem mod1_mod2_exclusive:
  "\<not> (Key_mod1 g ev = Inr True \<and> Key_mod2 g ev = Inr True)
   \<and> (isMacOS g = Inr True \<longrightarrow>
        Key_mod1 g \<lparr>key = ''Meta''\<rparr> = Inr True \<and> Key_mod1 g \<lparr>key = ''Control''\<rparr> = Inr False)
   \<and> (isMacOS g = Inr False \<longrightarrow>
        Key_mod1 g \<lparr>key = ''Control''\<rparr> = Inr True \<and> Key_mod1 g \<lparr>key = ''Meta''\<rparr> = Inr False)"
  by (cases "isMacOS g") (auto simp: Key_mod1_def Key_mod2_def split: if_splits)

theorem mod1_mod2_exclusive_witness:
  "isMacOS (mockUserAgent ua_Safari_macOS) = Inr True
   \<and> Key_mod1 (mockUserAgent ua_Safari_macOS) \<lparr>key = ''Meta''\<rparr> = Inr True
   \<and> Key_mod1 (mockUserAgent ua_Safari_macOS) \<lparr>key = ''Control''\<rparr> = Inr False
   \<and> isMacOS (mockUserAgent ua_Edge_Windows) = Inr False
   \<and> Key_mod1 (mockUserAgent ua_Edge_Windows) \<lparr>key = ''Control''\<rparr> = Inr True
   \<and> Key_mod1 (mockUserAgent ua_Edge_Windows) \<lparr>key = ''Meta''\<rparr> = Inr False"
proof -
  have mac: "isMacOS (mockUserAgent ua_Safari_macOS) = Inr True"
    by (simp add: isMacOS_mock ua_Safari_macOS_def)
  have win: "isMacOS (mockUserAgent ua_Edge_Windows) = Inr False"
    by (simp add: isMacOS_mock ua_Edge_Windows_def)
  show ?thesis
    using mac win mod1_mod2_exclusive [of "mockUserAgent ua_Safari_macOS"]
      mod1_mod2_exclusive [of "mockUserAgent ua_Edge_Windows"]
    by simp
qed

subsection \<open>Short-circuit and eager evaluation\<close>

lemma eval_all_value:
  "\<forall>p\<in>set ps. \<exists>b. p g ev = Inr b \<Longrightarrow>
   eval_all ps g ev = Inr (map (\<lambda>p. p g ev = Inr True) ps)"
proof (induction ps)
  case Nil
  show ?case by simp
next
  case (Cons p ps)
  then obtain b where "p g ev = Inr b" by auto
  with Cons show ?case by simp
qed

text \<open>
  Claim C7, as stated, fails on predicates that have no side effect but may throw. With
  \<open>keys = [Key.Enter, Key.mod1]\<close>, no \<open>navigator\<close> and the key \<open>Control\<close>, the code
  returns false without calling \<open>Key.mod1\<close>, because \<open>Key.Enter\<close> already gave false; the
  eager evaluation calls \<open>Key.mod1\<close>, which throws.
\<close>

theorem short_circuit_skips_a_throw:
  "checkKeystroke \<lparr>keys = [Key_Enter, Key_mod1], except = [], cb = counting\<rparr>
      no_navigator \<lparr>key = ''Control''\<rparr> = Inr False
   \<and> checkKeystroke_eager \<lparr>keys = [Key_Enter, Key_mod1], except = [], cb = counting\<rparr>
      no_navigator \<lparr>key = ''Control''\<rparr> = Inl TypeError"
  by (simp add: checkKeystroke_def checkKeystroke_eager_def Key_Enter_def Key_mod1_def
      isMacOS_def no_navigator_def)

text \<open>
  Claim C7, amended. For every rule and every event on which each predicate of both lists
  returns a boolean (none throws), \<open>checkKeystroke\<close>, which stops calling predicates once
  the accumulator is false, returns what the eager reference returns: the conjunction of
  all required results and all negated excluded results.
\<close>

theorem checkKeystroke_eager_equiv:
  assumes "\<forall>p\<in>set (keys k) \<union> set (except k). \<exists>b. p g ev = Inr b"
  shows "checkKeystroke k g ev = checkKeystroke_eager k g ev
         \<and> (\<exists>b. checkKeystroke_eager k g ev = Inr b)"
proof -
  from assms have ks: "\<forall>p\<in>set (keys k). \<exists>b. p g ev = Inr b"
    and es: "\<forall>p\<in>set (except k). \<exists>b. p g ev = Inr b"
    by auto
  have neg: "(\<forall>p\<in>set (except k). p g ev \<noteq> Inr True) \<longleftrightarrow> (\<forall>p\<in>set (except k). p g ev = Inr False)"
    using es by fastforce
  have eager: "checkKeystroke_eager k g ev =
      Inr ((\<forall>p\<in>set (keys k). p g ev = Inr True) \<and> (\<forall>p\<in>set (except k). p g ev = Inr False))"
    by (simp add: checkKeystroke_eager_def eval_all_value [OF ks] eval_all_value [OF es]
        list_all_iff neg)
  with checkKeystroke_value [OF ks es] show ?thesis by simp
qed

theorem checkKeystroke_eager_equiv_witness:
  "checkKeystroke \<lparr>keys = [Key_Enter, Key_mod1], except = [Key_Shift], cb = counting\<rparr>
      (mockUserAgent ua_Android) \<lparr>key = ''Control''\<rparr> = Inr False
   \<and> checkKeystroke_eager \<lparr>keys = [Key_Enter, Key_mod1], except = [Key_Shift], cb = counting\<rparr>
      (mockUserAgent ua_Android) \<lparr>key = ''Control''\<rparr> = Inr False"
proof -
  have win: "isMacOS (mockUserAgent ua_Android) = Inr False"
    by (simp add: isMacOS_mock ua_Android_def)
  have "\<forall>p\<in>set (keys \<lparr>keys = [Key_Enter, Key_mod1], except = [Key_Shift], cb = counting\<rparr>)
           \<union> set (except \<lparr>keys = [Key_Enter, Key_mod1], except = [Key_Shift], cb = counting\<rparr>).
          \<exists>b. p (mockUserAgent ua_Android) \<lparr>key = ''Control''\<rparr> = Inr b"
    by (auto simp: Key_Enter_def Key_Shift_def Key_mod1_def win)
  from checkKeystroke_eager_equiv [OF this] show ?thesis
    by (simp add: checkKeystroke_eager_def Key_Enter_def Key_Shift_def Key_mod1_def win)
qed

subsection \<open>Self-contradictory rules\<close>




subsection \<open>What rule satisfaction depends on\<close>















text \<open>
  The restriction to predicates that only read is needed: a predicate that counts its calls
  in the heap answers differently at the next call, and one that rewrites the key leaves
  another event behind.
\<close>

lemma effects_change_the_result:
  "fst (checkKeystroke_effects [every_other_call] [] \<lparr>key = ''Enter''\<rparr>
          \<lparr>global = mockUserAgent ua_Android, heap = 0\<rparr>) = Inr True
   \<and> fst (checkKeystroke_effects [every_other_call] [] \<lparr>key = ''Enter''\<rparr>
          \<lparr>global = mockUserAgent ua_Android, heap = 1\<rparr>) = Inr False
   \<and> checkKeystroke_effects [rewriting_key] [] \<lparr>key = ''Enter''\<rparr>
          \<lparr>global = mockUserAgent ua_Android, heap = 0\<rparr>
      = (Inr True, \<lparr>key = ''Tab''\<rparr>, \<lparr>global = mockUserAgent ua_Android, heap = 0\<rparr>)"
  by (simp add: checkKeystroke_effects_def every_other_call_def rewriting_key_def)

subsection \<open>The dispatcher\<close>

lemma forEach_append:
  "forEach f (xs @ ys) s =
     (case forEach f xs s of Normal s' \<Rightarrow> forEach f ys s' | Abrupt e s' \<Rightarrow> Abrupt e s')"
  by (induction xs arbitrary: s) (auto split: completion.splits)

lemma handleKeyboard_Nil: "handleKeyboard [] g ev s = Normal s"
  by (simp add: handleKeyboard_def)

lemma handleKeyboard_Cons:
  "handleKeyboard (k # ks) g ev s =
     (case checkKeystroke k g ev of
        Inl e \<Rightarrow> Abrupt e s
      | Inr b \<Rightarrow>
          if b then (case invoke (cb k) ev s of
                       Normal s' \<Rightarrow> handleKeyboard ks g ev s'
                     | Abrupt e s' \<Rightarrow> Abrupt e s')
          else handleKeyboard ks g ev s)"
  unfolding handleKeyboard_def by (simp split: sum.splits)

lemma handleKeyboard_append:
  "handleKeyboard (xs @ ys) g ev s =
     (case handleKeyboard xs g ev s of
        Normal s' \<Rightarrow> handleKeyboard ys g ev s'
      | Abrupt e s' \<Rightarrow> Abrupt e s')"
  unfolding handleKeyboard_def by (rule forEach_append)

lemma matching_Cons:
  "matching (k # ks) g ev =
     (if checkKeystroke k g ev = Inr True then k # matching ks g ev else matching ks g ev)"
  by (simp add: matching_def)

lemma invoke_Normal:
  "invoke f ev s = Normal s' \<Longrightarrow>
     calls s' = calls s @ [(f, ev)] \<and> app s' = state_of (f ev (app s))"
  by (auto simp: invoke_def split: completion.splits)

lemma handleKeyboard_Normal:
  "handleKeyboard ks g ev s = Normal s' \<Longrightarrow>
     calls s' = calls s @ map (\<lambda>k. (cb k, ev)) (matching ks g ev)
     \<and> app s' = foldl (\<lambda>u k. state_of (cb k ev u)) (app s) (matching ks g ev)"
proof (induction ks arbitrary: s)
  case Nil
  then show ?case by (simp add: handleKeyboard_Nil matching_def)
next
  case (Cons k ks)
  show ?case
  proof (cases "checkKeystroke k g ev")
    case (Inl e)
    with Cons.prems show ?thesis by (simp add: handleKeyboard_Cons)
  next
    case (Inr b)
    show ?thesis
    proof (cases b)
      case False
      with Inr Cons.prems have "handleKeyboard ks g ev s = Normal s'"
        by (simp add: handleKeyboard_Cons)
      from Cons.IH [OF this] Inr False show ?thesis by (simp add: matching_Cons)
    next
      case True
      with Inr Cons.prems obtain s1 where
        inv: "invoke (cb k) ev s = Normal s1" and rest: "handleKeyboard ks g ev s1 = Normal s'"
        by (auto simp: handleKeyboard_Cons split: completion.splits)
      from invoke_Normal [OF inv] Cons.IH [OF rest] Inr True show ?thesis
        by (simp add: matching_Cons)
    qed
  qed
qed

lemma handleKeyboard_returns:
  assumes "\<forall>k\<in>set ks. \<exists>b. checkKeystroke k g ev = Inr b"
    and "\<forall>k\<in>set (matching ks g ev). \<forall>u. \<exists>u'. cb k ev u = Normal u'"
  shows "\<exists>s'. handleKeyboard ks g ev s = Normal s'"
  using assms
proof (induction ks arbitrary: s)
  case Nil
  show ?case by (simp add: handleKeyboard_Nil)
next
  case (Cons k ks)
  then obtain b where b: "checkKeystroke k g ev = Inr b" by auto
  have later: "\<forall>k\<in>set (matching ks g ev). \<forall>u. \<exists>u'. cb k ev u = Normal u'"
    using Cons.prems(2) by (simp add: matching_Cons split: if_splits)
  have ih: "\<exists>s'. handleKeyboard ks g ev t = Normal s'" for t
    using Cons.IH [of t] Cons.prems(1) later by simp
  show ?case
  proof (cases b)
    case False
    with b ih show ?thesis by (simp add: handleKeyboard_Cons)
  next
    case True
    with b Cons.prems(2) have "\<forall>u. \<exists>u'. cb k ev u = Normal u'"
      by (simp add: matching_Cons)
    then obtain u' where "cb k ev (app s) = Normal u'" by blast
    then have "invoke (cb k) ev s = Normal \<lparr>calls = calls s @ [(cb k, ev)], app = u'\<rparr>"
      by (simp add: invoke_def)
    with b True ih show ?thesis by (simp add: handleKeyboard_Cons)
  qed
qed

lemma handleKeyboard_no_match:
  "\<forall>k\<in>set ks. checkKeystroke k g ev = Inr False \<Longrightarrow> handleKeyboard ks g ev s = Normal s"
  by (induction ks) (simp_all add: handleKeyboard_Nil handleKeyboard_Cons)


lemmas dispatch_eval =
  handleKeyboard_Nil handleKeyboard_Cons matching_def checkKeystroke_def invoke_def
  counting_def throwing_def start_def

text \<open>
  Claim C2, as stated, fails where something throws. Two rules that both match, the first
  with a callback that throws: the second callback is never invoked and the dispatcher
  raises the error. And one rule that does not match because its predicate \<open>Key.mod1\<close>
  throws (no \<open>navigator\<close>, key \<open>Control\<close>): no rule matches, yet an error is raised.
\<close>

theorem handleKeyboard_stops_at_a_throw:
  "matching [\<lparr>keys = [], except = [], cb = throwing\<rparr>, \<lparr>keys = [], except = [], cb = counting\<rparr>]
      (mockUserAgent ua_Android) \<lparr>key = ''a''\<rparr>
     = [\<lparr>keys = [], except = [], cb = throwing\<rparr>, \<lparr>keys = [], except = [], cb = counting\<rparr>]
   \<and> handleKeyboard
        [\<lparr>keys = [], except = [], cb = throwing\<rparr>, \<lparr>keys = [], except = [], cb = counting\<rparr>]
        (mockUserAgent ua_Android) \<lparr>key = ''a''\<rparr> start
     = Abrupt (Thrown ''callback failed'') \<lparr>calls = [(throwing, \<lparr>key = ''a''\<rparr>)], app = 0\<rparr>
   \<and> matching [\<lparr>keys = [Key_mod1], except = [], cb = counting\<rparr>]
        no_navigator \<lparr>key = ''Control''\<rparr> = []
   \<and> handleKeyboard [\<lparr>keys = [Key_mod1], except = [], cb = counting\<rparr>]
        no_navigator \<lparr>key = ''Control''\<rparr> start
     = Abrupt TypeError start"
  by (simp add: dispatch_eval Key_mod1_def isMacOS_def no_navigator_def)

text \<open>
  Claim C2, amended. A dispatch that returns normally has invoked exactly the callbacks of
  the rules that satisfy \<open>checkKeystroke\<close> on the event, each with that event, in the
  order of the rule set, every matching rule and not only the first; the application
  state is the callbacks' effects in that order. It returns normally whenever no
  predicate throws and no callback of a matching rule throws. When every rule's check
  returns false, no callback is invoked, no error is raised and the state is unchanged.
\<close>

theorem handleKeyboard_invokes_matching:
  "(handleKeyboard ks g ev s = Normal s' \<longrightarrow>
      calls s' = calls s @ map (\<lambda>k. (cb k, ev)) (matching ks g ev)
      \<and> app s' = foldl (\<lambda>u k. state_of (cb k ev u)) (app s) (matching ks g ev))
   \<and> ((\<forall>k\<in>set ks. \<exists>b. checkKeystroke k g ev = Inr b)
        \<and> (\<forall>k\<in>set (matching ks g ev). \<forall>u. \<exists>u'. cb k ev u = Normal u') \<longrightarrow>
      (\<exists>t. handleKeyboard ks g ev s = Normal t))
   \<and> ((\<forall>k\<in>set ks. checkKeystroke k g ev = Inr False) \<longrightarrow>
      handleKeyboard ks g ev s = Normal s)"
  using handleKeyboard_Normal [of ks g ev s s'] handleKeyboard_returns [of ks g ev s]
    handleKeyboard_no_match [of ks g ev s]
  by blast

theorem handleKeyboard_invokes_matching_witness:
  "handleKeyboard
      [\<lparr>keys = [Key_Enter], except = [Key_Shift], cb = counting\<rparr>,
       \<lparr>keys = [Key_Tab], except = [], cb = throwing\<rparr>,
       \<lparr>keys = [], except = [Key_Tab], cb = (\<lambda>ev u. Normal (2 * u))\<rparr>]
      (mockUserAgent ua_Android) \<lparr>key = ''Enter''\<rparr> start
     = Normal \<lparr>calls = [(counting, \<lparr>key = ''Enter''\<rparr>), (\<lambda>ev u. Normal (2 * u), \<lparr>key = ''Enter''\<rparr>)],
               app = 2\<rparr>
   \<and> matching
      [\<lparr>keys = [Key_Enter], except = [Key_Shift], cb = counting\<rparr>,
       \<lparr>keys = [Key_Tab], except = [], cb = throwing\<rparr>,
       \<lparr>keys = [], except = [Key_Tab], cb = (\<lambda>ev u. Normal (2 * u))\<rparr>]
      (mockUserAgent ua_Android) \<lparr>key = ''Enter''\<rparr>
     = [\<lparr>keys = [Key_Enter], except = [Key_Shift], cb = counting\<rparr>,
        \<lparr>keys = [], except = [Key_Tab], cb = (\<lambda>ev u. Normal (2 * u))\<rparr>]
   \<and> handleKeyboard
      [\<lparr>keys = [Key_Enter], except = [Key_Shift], cb = counting\<rparr>,
       \<lparr>keys = [Key_Tab], except = [], cb = throwing\<rparr>]
      (mockUserAgent ua_Android) \<lparr>key = ''Escape''\<rparr> start
     = Normal start"
proof -
  let ?ks = "[\<lparr>keys = [Key_Enter], except = [Key_Shift], cb = counting\<rparr>,
       \<lparr>keys = [Key_Tab], except = [], cb = throwing\<rparr>,
       \<lparr>keys = [], except = [Key_Tab], cb = (\<lambda>ev u. Normal (2 * u))\<rparr>]"
  let ?g = "mockUserAgent ua_Android"
  have checks: "\<forall>k\<in>set ?ks. \<exists>b. checkKeystroke k ?g \<lparr>key = ''Enter''\<rparr> = Inr b"
    by (auto simp: checkKeystroke_def Key_Enter_def Key_Shift_def Key_Tab_def)
  have m: "matching ?ks ?g \<lparr>key = ''Enter''\<rparr>
     = [\<lparr>keys = [Key_Enter], except = [Key_Shift], cb = counting\<rparr>,
        \<lparr>keys = [], except = [Key_Tab], cb = (\<lambda>ev u. Normal (2 * u))\<rparr>]"
    by (simp add: matching_def checkKeystroke_def Key_Enter_def Key_Shift_def Key_Tab_def)
  have cbs: "\<forall>k\<in>set (matching ?ks ?g \<lparr>key = ''Enter''\<rparr>). \<forall>u. \<exists>u'. cb k \<lparr>key = ''Enter''\<rparr> u = Normal u'"
    unfolding m by (simp add: counting_def)
  have none: "\<forall>k\<in>set [\<lparr>keys = [Key_Enter], except = [Key_Shift], cb = counting\<rparr>,
       \<lparr>keys = [Key_Tab], except = [], cb = throwing\<rparr>].
        checkKeystroke k ?g \<lparr>key = ''Escape''\<rparr> = Inr False"
    by (simp add: checkKeystroke_def Key_Enter_def Key_Shift_def Key_Tab_def)
  from handleKeyboard_invokes_matching [of ?ks ?g "\<lparr>key = ''Enter''\<rparr>" start] checks cbs
  obtain t where t: "handleKeyboard ?ks ?g \<lparr>key = ''Enter''\<rparr> start = Normal t" by blast
  with handleKeyboard_invokes_matching [of ?ks ?g "\<lparr>key = ''Enter''\<rparr>" start t]
  have "calls t = calls start @ map (\<lambda>k. (cb k, \<lparr>key = ''Enter''\<rparr>)) (matching ?ks ?g \<lparr>key = ''Enter''\<rparr>)"
    and "app t = foldl (\<lambda>u k. state_of (cb k \<lparr>key = ''Enter''\<rparr> u)) (app start)
            (matching ?ks ?g \<lparr>key = ''Enter''\<rparr>)"
    by blast+
  then have "t = \<lparr>calls = [(counting, \<lparr>key = ''Enter''\<rparr>), (\<lambda>ev u. Normal (2 * u), \<lparr>key = ''Enter''\<rparr>)],
               app = 2\<rparr>"
    unfolding m by (simp add: start_def counting_def)
  with t have first: "handleKeyboard ?ks ?g \<lparr>key = ''Enter''\<rparr> start
     = Normal \<lparr>calls = [(counting, \<lparr>key = ''Enter''\<rparr>), (\<lambda>ev u. Normal (2 * u), \<lparr>key = ''Enter''\<rparr>)],
               app = 2\<rparr>"
    by simp
  from handleKeyboard_invokes_matching [of "[\<lparr>keys = [Key_Enter], except = [Key_Shift], cb = counting\<rparr>,
       \<lparr>keys = [Key_Tab], except = [], cb = throwing\<rparr>]" ?g "\<lparr>key = ''Escape''\<rparr>" start] none
  have last: "handleKeyboard [\<lparr>keys = [Key_Enter], except = [Key_Shift], cb = counting\<rparr>,
       \<lparr>keys = [Key_Tab], except = [], cb = throwing\<rparr>] ?g \<lparr>key = ''Escape''\<rparr> start = Normal start"
    by blast
  from first m last show ?thesis by blast
qed

text \<open>
  Claim C9. When the rules before a matching rule \<open>k\<close> have been handled without a throw
  and the callback of \<open>k\<close> throws \<open>e\<close>, the dispatcher ends with that throw: the calls
  made are the callbacks of the earlier matching rules, in order, then the callback of
  \<open>k\<close>, and none of the rules after \<open>k\<close>; the application state is what the earlier
  callbacks and the throwing one left, with nothing undone.
\<close>

theorem handleKeyboard_callback_throws:
  assumes "handleKeyboard pre g ev s = Normal s1"
    and "checkKeystroke k g ev = Inr True"
    and "cb k ev (app s1) = Abrupt e u"
  shows "handleKeyboard (pre @ k # post) g ev s =
           Abrupt e \<lparr>calls = calls s @ map (\<lambda>r. (cb r, ev)) (matching pre g ev) @ [(cb k, ev)],
                     app = u\<rparr>
         \<and> app s1 = foldl (\<lambda>u r. state_of (cb r ev u)) (app s) (matching pre g ev)"
proof -
  from handleKeyboard_Normal [OF assms(1)]
  have c: "calls s1 = calls s @ map (\<lambda>r. (cb r, ev)) (matching pre g ev)"
    and a: "app s1 = foldl (\<lambda>u r. state_of (cb r ev u)) (app s) (matching pre g ev)"
    by simp_all
  have "invoke (cb k) ev s1 = Abrupt e \<lparr>calls = calls s1 @ [(cb k, ev)], app = u\<rparr>"
    using assms(3) by (simp add: invoke_def)
  then have "handleKeyboard (k # post) g ev s1
      = Abrupt e \<lparr>calls = calls s1 @ [(cb k, ev)], app = u\<rparr>"
    using assms(2) by (simp add: handleKeyboard_Cons)
  then have "handleKeyboard (pre @ k # post) g ev s
      = Abrupt e \<lparr>calls = calls s1 @ [(cb k, ev)], app = u\<rparr>"
    using assms(1) by (simp add: handleKeyboard_append)
  with c a show ?thesis by simp
qed

theorem handleKeyboard_callback_throws_witness:
  "handleKeyboard
      ([\<lparr>keys = [Key_Enter], except = [Key_Shift], cb = counting\<rparr>]
       @ \<lparr>keys = [Key_Enter], except = [], cb = throwing\<rparr>
       # [\<lparr>keys = [], except = [Key_Tab], cb = counting\<rparr>])
      (mockUserAgent ua_Android) \<lparr>key = ''Enter''\<rparr> start
     = Abrupt (Thrown ''callback failed'')
         \<lparr>calls = [(counting, \<lparr>key = ''Enter''\<rparr>), (throwing, \<lparr>key = ''Enter''\<rparr>)], app = 1\<rparr>
   \<and> checkKeystroke \<lparr>keys = [], except = [Key_Tab], cb = counting\<rparr>
        (mockUserAgent ua_Android) \<lparr>key = ''Enter''\<rparr> = Inr True"
proof -
  let ?g = "mockUserAgent ua_Android"
  let ?ev = "\<lparr>key = ''Enter''\<rparr>"
  have pre: "handleKeyboard [\<lparr>keys = [Key_Enter], except = [Key_Shift], cb = counting\<rparr>] ?g ?ev start
      = Normal \<lparr>calls = [(counting, ?ev)], app = 1\<rparr>"
    by (simp add: dispatch_eval Key_Enter_def Key_Shift_def)
  have hit: "checkKeystroke \<lparr>keys = [Key_Enter], except = [], cb = throwing\<rparr> ?g ?ev = Inr True"
    by (simp add: checkKeystroke_def Key_Enter_def)
  have thr: "cb \<lparr>keys = [Key_Enter], except = [], cb = throwing\<rparr> ?ev
      (app \<lparr>calls = [(counting, ?ev)], app = 1\<rparr>) = Abrupt (Thrown ''callback failed'') 1"
    by (simp add: throwing_def)
  have later: "checkKeystroke \<lparr>keys = [], except = [Key_Tab], cb = counting\<rparr> ?g ?ev = Inr True"
    by (simp add: checkKeystroke_def Key_Tab_def)
  from handleKeyboard_callback_throws [OF pre hit thr,
      of "[\<lparr>keys = [], except = [Key_Tab], cb = counting\<rparr>]"] later
  show ?thesis
    by (simp add: matching_def checkKeystroke_def Key_Enter_def Key_Shift_def start_def)
qed

end
